theory Spec2Isabelle
  imports Main "HOL-Library.Char_ord" "HOL-Library.List_Lexorder" "HOL-Library.Product_Lexorder"
    "HOL-Library.Multiset"
begin

section \<open>Strings\<close>

text \<open>
  A Python \<open>str\<close> is modelled as a \<^typ>\<open>string\<close>, a character standing for the code
  point of its number. The alphabet of the model is ASCII and the letter U+00DF (sharp s):
  the case operations act on the 26 letters of \<open>string.ascii_lowercase\<close> and
  \<open>string.ascii_uppercase\<close> and on the sharp s, a lower-case letter whose upper case is
  \<open>SS\<close> and whose title case is \<open>Ss\<close>, so that the case operations of Python do not keep
  the length of a string. Every other character is outside the alphabet; the model takes
  it as uncased and as no digit. Strings compare lexicographically by character code, as
  Python's do.
\<close>

definition ascii_lowercase :: string where
  "ascii_lowercase = ''abcdefghijklmnopqrstuvwxyz''"

definition ascii_uppercase :: string where
  "ascii_uppercase = ''ABCDEFGHIJKLMNOPQRSTUVWXYZ''"

definition ascii_letters :: string where
  "ascii_letters = ascii_lowercase @ ascii_uppercase"

definition digits :: string where
  "digits = ''0123456789''"

definition sharp_s :: char where
  "sharp_s = CHR 0xDF"

definition isascii :: "char \<Rightarrow> bool" where
  "isascii c = (of_char c < (128::nat))"

definition isupper :: "char \<Rightarrow> bool" where
  "isupper c = (c \<in> set ascii_uppercase)"

definition islower :: "char \<Rightarrow> bool" where
  "islower c = (c \<in> set ascii_lowercase \<or> c = sharp_s)"

definition isdigit :: "char \<Rightarrow> bool" where
  "isdigit c = (c \<in> set digits)"

definition lower_char :: "char \<Rightarrow> char" where
  "lower_char c = (case map_of (zip ascii_uppercase ascii_lowercase) c of Some l \<Rightarrow> l | None \<Rightarrow> c)"

definition upper_char :: "char \<Rightarrow> char" where
  "upper_char c = (case map_of (zip ascii_lowercase ascii_uppercase) c of Some u \<Rightarrow> u | None \<Rightarrow> c)"

text \<open>
  The upper case and the title case of one character, which are strings: two characters
  for the sharp s, one for every other character.
\<close>

definition upper_str :: "char \<Rightarrow> string" where
  "upper_str c = (if c = sharp_s then ''SS'' else [upper_char c])"

definition title_str :: "char \<Rightarrow> string" where
  "title_str c = (if c = sharp_s then ''Ss'' else [upper_char c])"

text \<open>\<open>s.lower()\<close> and \<open>s.upper()\<close>; the sharp s is its own lower case.\<close>

definition lower :: "string \<Rightarrow> string" where
  "lower s = map lower_char s"

definition upper :: "string \<Rightarrow> string" where
  "upper s = concat (map upper_str s)"

text \<open>\<open>s.capitalize()\<close>: the first character title-cased, the others lower-cased.\<close>

fun capitalize :: "string \<Rightarrow> string" where
  "capitalize [] = []"
| "capitalize (c # cs) = title_str c @ map lower_char cs"

text \<open>
  \<open>s.title()\<close>: a cased character is title-cased when the character before it is not
  cased, and lower-cased otherwise; the flag is whether the previous character is cased.
\<close>

fun title_from :: "bool \<Rightarrow> string \<Rightarrow> string" where
  "title_from previous_is_cased [] = []"
| "title_from previous_is_cased (c # cs) =
     (if islower c then
        (if previous_is_cased then [c] else title_str c) @ title_from True cs
      else if isupper c then
        (if previous_is_cased then lower_char c else c) # title_from True cs
      else c # title_from False cs)"

definition title :: "string \<Rightarrow> string" where
  "title s = title_from False s"

text \<open>\<open>s.startswith(p)\<close> and the substring test \<open>sub in s\<close>.\<close>

fun startswith :: "string \<Rightarrow> string \<Rightarrow> bool" where
  "startswith s [] = True"
| "startswith [] (p # ps) = False"
| "startswith (c # cs) (p # ps) = (c = p \<and> startswith cs ps)"

fun contains :: "string \<Rightarrow> string \<Rightarrow> bool" where
  "contains [] sub = (sub = [])"
| "contains (c # cs) sub = (startswith (c # cs) sub \<or> contains cs sub)"

text \<open>\<open>s.replace(old, new)\<close> for one-character \<open>old\<close> and \<open>new\<close>, the only use in the source.\<close>

definition replace :: "char \<Rightarrow> char \<Rightarrow> string \<Rightarrow> string" where
  "replace old new s = map (\<lambda>c. if c = old then new else c) s"

text \<open>The slice \<open>xs[:n]\<close>; a negative \<open>n\<close> counts from the end.\<close>

definition slice_to :: "int \<Rightarrow> 'a list \<Rightarrow> 'a list" where
  "slice_to n xs = (if n < 0 then take (length xs - nat (- n)) xs else take (nat n) xs)"

text \<open>The slice \<open>xs[-n:]\<close> for a positive \<open>n\<close>: the last \<open>n\<close> elements.\<close>

definition last_n :: "nat \<Rightarrow> 'a list \<Rightarrow> 'a list" where
  "last_n n xs = drop (length xs - n) xs"

text \<open>\<open>str(n)\<close> for an integer: decimal digits, with a minus sign when negative.\<close>

fun str_nat :: "nat \<Rightarrow> string" where
  "str_nat n = (if n < 10 then [digits ! n] else str_nat (n div 10) @ [digits ! (n mod 10)])"

declare str_nat.simps [simp del]

definition str_int :: "int \<Rightarrow> string" where
  "str_int i = (if i < 0 then CHR ''-'' # str_nat (nat (- i)) else str_nat (nat i))"

section \<open>Filter stage\<close>

text \<open>The options \<open>apply_filters\<close> reads from the configuration, with their types.\<close>

record config =
  min_length :: int
  max_length :: int
  require_upper :: bool
  require_lower :: bool
  require_digit :: bool
  require_special :: bool

text \<open>The defaults of the command line: lengths 1 to 128, no requirement.\<close>

definition default_config :: config where
  "default_config = \<lparr>min_length = 1, max_length = 128, require_upper = False,
     require_lower = False, require_digit = False, require_special = False\<rparr>"

definition special_chars :: string where
  "special_chars = ''!@#$%^&*()_+-=[]{}|;:,.<>?''"

text \<open>
  The body of the loop of \<open>apply_filters\<close>: each \<open>continue\<close> is a \<open>False\<close>, reaching
  \<open>filtered.add(password)\<close> is \<open>True\<close>.
\<close>

definition passes :: "config \<Rightarrow> string \<Rightarrow> bool" where
  "passes cfg password =
     (if \<not> (min_length cfg \<le> int (length password) \<and> int (length password) \<le> max_length cfg)
        then False
      else if require_upper cfg \<and> \<not> list_ex isupper password then False
      else if require_lower cfg \<and> \<not> list_ex islower password then False
      else if require_digit cfg \<and> \<not> list_ex isdigit password then False
      else if require_special cfg \<and> \<not> list_ex (\<lambda>c. c \<in> set special_chars) password then False
      else True)"

text \<open>\<open>apply_filters\<close> replaces the word list by the set of the passwords it keeps.\<close>

definition apply_filters :: "config \<Rightarrow> string set \<Rightarrow> string set" where
  "apply_filters cfg wordlist = Set.filter (passes cfg) wordlist"

text \<open>The counter \<open>stats['filtered']\<close> it sets.\<close>

definition stats_filtered :: "config \<Rightarrow> string set \<Rightarrow> int" where
  "stats_filtered cfg wordlist = int (card wordlist) - int (card (apply_filters cfg wordlist))"

text \<open>
  The filter as the specification words it, for a punctuation set \<open>punct\<close>: the length lies
  within the bounds and each enabled requirement has a character of its class.
\<close>

definition spec_keeps :: "char set \<Rightarrow> config \<Rightarrow> string \<Rightarrow> bool" where
  "spec_keeps punct cfg p =
     (min_length cfg \<le> int (length p) \<and> int (length p) \<le> max_length cfg
      \<and> (require_upper cfg \<longrightarrow> (\<exists>c \<in> set p. isupper c))
      \<and> (require_lower cfg \<longrightarrow> (\<exists>c \<in> set p. islower c))
      \<and> (require_digit cfg \<longrightarrow> (\<exists>c \<in> set p. isdigit c))
      \<and> (require_special cfg \<longrightarrow> (\<exists>c \<in> set p. c \<in> punct)))"

section \<open>Likelihood scorer\<close>

text \<open>
  The score of one password in \<open>sort_by_likelihood\<close>. \<open>base_words\<close> is the set of base
  words as a list in its iteration order, of which the first 20 are looked at.
\<close>

definition score :: "string list \<Rightarrow> string \<Rightarrow> int" where
  "score base_words password =
     (let n = int (length password);
          score = (if 8 \<le> n \<and> n \<le> 12 then 20 else if 6 \<le> n \<and> n \<le> 16 then 10 else 0);
          score = (if list_ex (contains password) [''2023'', ''2024'', ''2025'']
                   then score + 15 else score);
          score = (if list_ex (contains (lower password))
                        [''admin'', ''user'', ''pass'', ''123'', ''test'']
                   then score + 10 else score);
          score = (if list_ex isupper password \<and> list_ex islower password
                   then score + 5 else score);
          score = (if password \<noteq> [] \<and> isdigit (last password) then score + 8 else score);
          score = (if list_ex (\<lambda>word. 4 \<le> length word \<and> contains (lower password) word)
                        (take 20 base_words)
                   then score + 25 else score)
      in score)"

text \<open>
  \<open>sort_by_likelihood\<close>: pair each password with its score, sort by the key
  \<open>(-score, password)\<close>, return the passwords. \<open>wordlist\<close> is the word set as a list in
  its iteration order. Python's sort is stable, as \<^const>\<open>sort_key\<close> is.
\<close>

definition sort_by_likelihood :: "string list \<Rightarrow> string list \<Rightarrow> string list" where
  "sort_by_likelihood base_words wordlist =
     (let scored = map (\<lambda>password. (score base_words password, password)) wordlist;
          scored = sort_key (\<lambda>x. (- fst x, snd x)) scored
      in map snd scored)"

section \<open>Mutation engine\<close>

definition COMMON_SUFFIXES :: "string list" where
  "COMMON_SUFFIXES =
     [''1'', ''12'', ''123'', ''1234'', ''12345'', ''123456'',
      ''!'', ''@'', ''#'', ''$'', ''!!'', ''!@#'', ''123!'',
      ''00'', ''01'', ''11'', ''22'', ''69'', ''77'', ''88'', ''99'',
      ''2020'', ''2021'', ''2022'', ''2023'', ''2024'', ''2025'',
      ''_'', ''.'', ''-'']"

definition COMMON_PREFIXES :: "string list" where
  "COMMON_PREFIXES =
     [''admin'', ''user'', ''test'', ''demo'', ''guest'',
      ''root'', ''super'', ''master'', ''pass'', ''pwd'']"

text \<open>The dictionary \<open>LEET_MAP\<close> in its insertion order, which is its iteration order.\<close>

definition LEET_MAP :: "(char \<times> string) list" where
  "LEET_MAP =
     [(CHR ''a'', ''@4''), (CHR ''e'', ''3''), (CHR ''i'', ''1!''),
      (CHR ''o'', ''0''), (CHR ''s'', ''5$''), (CHR ''t'', ''7''),
      (CHR ''l'', ''1''), (CHR ''g'', ''9'')]"

text \<open>
  The inner loop of \<open>_apply_leetspeak\<close> for one variant: each replacement is put in for the
  letter and for its upper case.
\<close>

definition expand_variant :: "char \<Rightarrow> string \<Rightarrow> string \<Rightarrow> string set \<Rightarrow> string set" where
  "expand_variant char replacements variant new_variants =
     fold (\<lambda>replacement nv.
             insert (replace (upper_char char) replacement variant)
               (insert (replace char replacement variant) nv))
       replacements new_variants"

text \<open>
  The loop over \<open>LEET_MAP\<close>, with its \<open>break\<close>. The order in which Python lists a set is
  not fixed by the language: \<open>to_list\<close> stands for \<open>list(variants)\<close> and is a parameter.
\<close>

fun leet_loop ::
  "(string set \<Rightarrow> string list) \<Rightarrow> string \<Rightarrow> int \<Rightarrow> (char \<times> string) list \<Rightarrow> string set
     \<Rightarrow> string set" where
  "leet_loop to_list word max_variants [] variants = variants"
| "leet_loop to_list word max_variants ((char, replacements) # rest) variants =
     (if char \<in> set (lower word) then
        (let new_variants =
               fold (expand_variant char replacements)
                 (slice_to max_variants (to_list variants)) {};
             variants = variants \<union> new_variants
         in if max_variants * 2 < int (card variants) then variants
            else leet_loop to_list word max_variants rest variants)
      else leet_loop to_list word max_variants rest variants)"

definition apply_leetspeak ::
  "(string set \<Rightarrow> string list) \<Rightarrow> string \<Rightarrow> int \<Rightarrow> string set" where
  "apply_leetspeak to_list word max_variants =
     set (slice_to (max_variants * 2)
            (to_list (leet_loop to_list word max_variants LEET_MAP {word})))"

text \<open>The loops of \<open>mutate_word\<close> over the suffixes and over the five years.\<close>

definition add_suffixes :: "string \<Rightarrow> string list \<Rightarrow> string set \<Rightarrow> string set" where
  "add_suffixes word suffixes mutations =
     fold (\<lambda>suffix m. insert (capitalize word @ suffix) (insert (word @ suffix) m))
       suffixes mutations"

definition add_years :: "string \<Rightarrow> int \<Rightarrow> string set \<Rightarrow> string set" where
  "add_years word current_year mutations =
     fold (\<lambda>year_offset m.
             (let year = str_int (current_year + year_offset)
              in insert (word @ last_n 2 year) (insert (word @ year) m)))
       [-2, -1, 0, 1, 2] mutations"

text \<open>The block under \<open>level >= 2\<close>; \<open>leet\<close> is the option \<open>config.get('leet', False)\<close>.\<close>

definition level2 ::
  "(string set \<Rightarrow> string list) \<Rightarrow> bool \<Rightarrow> string \<Rightarrow> string set \<Rightarrow> string set" where
  "level2 to_list leet word mutations =
     (let mutations = insert (rev word) mutations;
          mutations = (if length word \<le> 8 then insert (word @ word) mutations else mutations);
          no_vowels = filter (\<lambda>c. lower_char c \<notin> set ''aeiou'') word;
          mutations = (if no_vowels \<noteq> [] \<and> 3 \<le> length no_vowels
                       then insert no_vowels mutations else mutations);
          mutations = (if leet then mutations \<union> apply_leetspeak to_list word 5
                       else mutations)
      in mutations)"

text \<open>The block under \<open>level >= 3\<close>.\<close>

definition level3 :: "string \<Rightarrow> string set \<Rightarrow> string set" where
  "level3 word mutations =
     (let mutations =
            fold (\<lambda>prefix m.
                    if \<not> startswith (lower word) prefix
                    then insert (prefix @ ''_'' @ word) (insert (prefix @ word) m)
                    else m)
              COMMON_PREFIXES mutations;
          mutations = insert (replace CHR ''s'' CHR ''$'' (replace CHR ''a'' CHR ''@'' word)) mutations;
          mutations = insert (replace CHR ''o'' CHR ''0'' (replace CHR ''e'' CHR ''3'' word)) mutations
      in mutations)"

text \<open>
  \<open>mutate_word\<close>. \<open>current_year\<close> is \<open>datetime.now().year\<close>, read from the clock and so a
  parameter here.
\<close>

definition mutate_word ::
  "(string set \<Rightarrow> string list) \<Rightarrow> bool \<Rightarrow> int \<Rightarrow> string \<Rightarrow> int \<Rightarrow> string set" where
  "mutate_word to_list leet current_year word level =
     (let mutations = {word} in
      if word = [] then mutations
      else
        (let mutations = insert (lower word) mutations;
             mutations = insert (upper word) mutations;
             mutations = insert (capitalize word) mutations;
             mutations = insert (title word) mutations;
             mutations = add_suffixes word
                           (if level = 1 then take 10 COMMON_SUFFIXES else COMMON_SUFFIXES)
                           mutations;
             mutations = add_years word current_year mutations;
             mutations = (if 2 \<le> level then level2 to_list leet word mutations else mutations);
             mutations = (if 3 \<le> level then level3 word mutations else mutations)
         in mutations))"

section \<open>Combination generator\<close>

text \<open>\<open>itertools.combinations(xs, 2)\<close> and \<open>itertools.combinations(xs, 3)\<close>, by position.\<close>

fun combinations2 :: "'a list \<Rightarrow> ('a \<times> 'a) list" where
  "combinations2 [] = []"
| "combinations2 (x # xs) = map (Pair x) xs @ combinations2 xs"

fun combinations3 :: "'a list \<Rightarrow> ('a \<times> 'a \<times> 'a) list" where
  "combinations3 [] = []"
| "combinations3 (x # xs) = map (Pair x) (combinations2 xs) @ combinations3 xs"

text \<open>The bodies of the two loops of \<open>generate_combinations\<close>.\<close>

definition add_pair :: "int \<Rightarrow> string \<times> string \<Rightarrow> string set \<Rightarrow> string set" where
  "add_pair max_len p combos =
     (case p of (w1, w2) \<Rightarrow>
        if int (length w1) + int (length w2) \<le> max_len then
          insert (w1 @ ''-'' @ w2)
            (insert (w1 @ ''.'' @ w2)
              (insert (w1 @ ''_'' @ w2)
                (insert (capitalize w1 @ capitalize w2)
                  (insert (w2 @ w1)
                    (insert (w1 @ w2) combos)))))
        else combos)"

definition add_triple :: "int \<Rightarrow> string \<times> string \<times> string \<Rightarrow> string set \<Rightarrow> string set" where
  "add_triple max_len t combos =
     (case t of (a, b, c) \<Rightarrow>
        (let combined = a @ b @ c
         in if int (length combined) \<le> max_len then
              insert (capitalize a @ capitalize b @ capitalize c) (insert combined combos)
            else combos))"

definition generate_combinations :: "string list \<Rightarrow> int \<Rightarrow> string set" where
  "generate_combinations words max_len =
     (let words = take 30 words;
          combos = fold (add_pair max_len) (combinations2 words) {};
          combos = (if 3 \<le> length words
                    then fold (add_triple max_len) (combinations3 (take 10 words)) combos
                    else combos)
      in combos)"

section \<open>Pattern expander\<close>

text \<open>The dictionary \<open>mappings\<close> of \<open>generate_from_pattern\<close>.\<close>

definition mappings :: "(char \<times> string) list" where
  "mappings =
     [(CHR ''@'', ascii_lowercase),
      (CHR '','', ascii_uppercase),
      (CHR ''%'', digits),
      (CHR ''^'', ''!@#$%^&*''),
      (CHR ''?'', ascii_letters),
      (CHR ''d'', digits),
      (CHR ''l'', ascii_lowercase),
      (CHR ''u'', ascii_uppercase),
      (CHR ''s'', ''!@#$%^&*()_+-='')]"

definition chars_to_use :: "string \<Rightarrow> string" where
  "chars_to_use cls = (if 5 < length cls then take 5 cls else cls)"

text \<open>
  The inner function \<open>_generate\<close>. It adds to the set \<open>results\<close> of the enclosing call,
  which is passed in and returned here.
\<close>

fun generate :: "int \<Rightarrow> string \<Rightarrow> string \<Rightarrow> string set \<Rightarrow> string set" where
  "generate limit [] current results =
     (if limit \<le> int (card results) then results else insert current results)"
| "generate limit (char # remaining) current results =
     (if limit \<le> int (card results) then results
      else
        (case map_of mappings char of
           Some cls \<Rightarrow>
             fold (\<lambda>replacement. generate limit remaining (current @ [replacement]))
               (chars_to_use cls) results
         | None \<Rightarrow> generate limit remaining (current @ [char]) results))"

definition generate_from_pattern :: "string \<Rightarrow> int \<Rightarrow> string set" where
  "generate_from_pattern pattern limit = generate limit pattern [] {}"

text \<open>
  For the proofs: all strings that fit a pattern, each wildcard running over the
  characters tried for its class, in the order in which \<open>_generate\<close> reaches them when no
  limit stops it.
\<close>

fun expansions :: "string \<Rightarrow> string list" where
  "expansions [] = [[]]"
| "expansions (char # remaining) =
     (case map_of mappings char of
        Some cls \<Rightarrow> concat (map (\<lambda>replacement. map ((#) replacement) (expansions remaining))
                              (chars_to_use cls))
      | None \<Rightarrow> map ((#) char) (expansions remaining))"

section \<open>Properties of the filter stage\<close>

lemma passes_iff_spec_keeps: "passes cfg p = spec_keeps (set special_chars) cfg p"
  by (auto simp: passes_def spec_keeps_def list_ex_iff)

lemma card_special_chars: "card (set special_chars) = 26"
  by (simp add: special_chars_def)

lemma filter_scenario:
  "apply_filters (default_config\<lparr>require_digit := True, require_special := True\<rparr>)
       {''abc'', ''abc1'', ''abc1!'', ''ABC1!''} = {''abc1!'', ''ABC1!''}"
  by (auto simp: apply_filters_def passes_def default_config_def isdigit_def digits_def
      special_chars_def)

text \<open>
  C2, with the size of the punctuation set as the source has it. A candidate is kept iff
  its length lies within \<open>[min_length, max_length]\<close> and each enabled requirement has a
  character of its class (upper-case letter, lower-case letter, digit, member of the fixed
  punctuation set), all of them together; the punctuation set has 26 characters, not 24;
  and with digits and punctuation required, \<open>{abc, abc1, abc1!, ABC1!}\<close> filters to
  \<open>{abc1!, ABC1!}\<close>.
\<close>

theorem apply_filters_keeps_iff:
  "apply_filters cfg S = {p \<in> S. spec_keeps (set special_chars) cfg p}
   \<and> card (set special_chars) = 26
   \<and> apply_filters (default_config\<lparr>require_digit := True, require_special := True\<rparr>)
       {''abc'', ''abc1'', ''abc1!'', ''ABC1!''} = {''abc1!'', ''ABC1!''}"
  using filter_scenario card_special_chars
  by (auto simp: apply_filters_def passes_iff_spec_keeps)

theorem apply_filters_keeps_iff_witness:
  "''Abc'' \<in> apply_filters (default_config\<lparr>require_upper := True\<rparr>) {''abc'', ''Abc''}
   \<and> ''abc'' \<notin> apply_filters (default_config\<lparr>require_upper := True\<rparr>) {''abc'', ''Abc''}"
proof -
  have "apply_filters (default_config\<lparr>require_upper := True\<rparr>) {''abc'', ''Abc''}
        = {p \<in> {''abc'', ''Abc''}.
             spec_keeps (set special_chars) (default_config\<lparr>require_upper := True\<rparr>) p}"
    using apply_filters_keeps_iff [of "default_config\<lparr>require_upper := True\<rparr>" "{''abc'', ''Abc''}"]
    by simp
  then show ?thesis
    by (simp add: spec_keeps_def default_config_def isupper_def ascii_uppercase_def)
qed

text \<open>
  C2 as stated fails: no set of 24 characters describes what the requirement for a
  special character accepts, since each of the 26 characters of the source's string
  passes on its own.
\<close>

theorem punctuation_set_not_24:
  "\<not> (\<exists>punct. card punct = 24 \<and>
        (\<forall>cfg S. apply_filters cfg S = {p \<in> S. spec_keeps punct cfg p}))"
proof
  assume "\<exists>punct. card punct = 24 \<and>
        (\<forall>cfg S. apply_filters cfg S = {p \<in> S. spec_keeps punct cfg p})"
  then obtain punct where c: "card punct = 24"
    and eq: "\<And>cfg S. apply_filters cfg S = {p \<in> S. spec_keeps punct cfg p}" by blast
  let ?cfg = "default_config\<lparr>require_special := True\<rparr>"
  have "set special_chars \<subseteq> punct"
  proof
    fix c assume m: "c \<in> set special_chars"
    have "passes ?cfg [c]" using m by (simp add: passes_def default_config_def)
    then have "[c] \<in> apply_filters ?cfg {[c]}" by (simp add: apply_filters_def)
    then have "spec_keeps punct ?cfg [c]" using eq [of ?cfg "{[c]}"] by simp
    then show "c \<in> punct" by (simp add: spec_keeps_def default_config_def)
  qed
  moreover have "finite punct" using c by (rule_tac card_ge_0_finite) simp
  ultimately have "card (set special_chars) \<le> card punct" by (rule card_mono[rotated])
  then show False using c card_special_chars by simp
qed

text \<open>C7. Filtering is idempotent: filtering a filtered set again changes nothing.\<close>

theorem apply_filters_idempotent:
  "apply_filters cfg (apply_filters cfg S) = apply_filters cfg S"
  by (auto simp: apply_filters_def)

theorem apply_filters_idempotent_witness:
  "apply_filters (default_config\<lparr>require_digit := True\<rparr>)
     (apply_filters (default_config\<lparr>require_digit := True\<rparr>) {''abc'', ''abc1''})
   = apply_filters (default_config\<lparr>require_digit := True\<rparr>) {''abc'', ''abc1''}"
  by (rule apply_filters_idempotent)

text \<open>
  C8. With \<open>min_length > max_length\<close> the filter returns the empty set for every
  candidate set. The filter is a total function without an error result: nothing is
  validated and nothing is raised.
\<close>

theorem apply_filters_empty_when_min_gt_max:
  "max_length cfg < min_length cfg \<Longrightarrow> apply_filters cfg S = {}"
  by (auto simp: apply_filters_def passes_def)

theorem apply_filters_empty_when_min_gt_max_witness:
  "max_length (default_config\<lparr>min_length := 9, max_length := 4\<rparr>)
     < min_length (default_config\<lparr>min_length := 9, max_length := 4\<rparr>)
   \<and> apply_filters (default_config\<lparr>min_length := 9, max_length := 4\<rparr>)
       {''abc'', ''abcdefghij'', ''abcdef''} = {}"
proof -
  have h: "max_length (default_config\<lparr>min_length := 9, max_length := 4\<rparr>)
     < min_length (default_config\<lparr>min_length := 9, max_length := 4\<rparr>)" by simp
  show ?thesis using h apply_filters_empty_when_min_gt_max [OF h] by simp
qed

section \<open>Properties of the likelihood scorer\<close>

lemma insort_key_map:
  "insort_key k (f x) (map f ys) = map f (insort_key (\<lambda>y. k (f y)) x ys)"
  by (induction ys) simp_all

lemma sort_key_map: "sort_key k (map f xs) = map f (sort_key (\<lambda>y. k (f y)) xs)"
  by (induction xs) (simp_all add: insort_key_map)

text \<open>Sorting the scored pairs and dropping the scores is sorting the passwords by the key.\<close>

lemma sort_by_likelihood_eq:
  "sort_by_likelihood bs wl = sort_key (\<lambda>p. (- score bs p, p)) wl"
  by (simp add: sort_by_likelihood_def sort_key_map o_def)

lemma sorted_key_order:
  assumes s: "sorted (map (\<lambda>p. (- score bs p, p)) r)" and d: "distinct r"
    and ij: "i < j" "j < length r"
  shows "score bs (r ! j) < score bs (r ! i)
         \<or> (score bs (r ! i) = score bs (r ! j) \<and> r ! i < r ! j)"
proof -
  have "map (\<lambda>p. (- score bs p, p)) r ! i \<le> map (\<lambda>p. (- score bs p, p)) r ! j"
    using s ij by (intro sorted_nth_mono) simp_all
  then have le: "(- score bs (r ! i), r ! i) \<le> (- score bs (r ! j), r ! j)"
    using ij by simp
  have ne: "r ! i \<noteq> r ! j" using d ij by (simp add: nth_eq_iff_index_eq)
  from le ne show ?thesis by (auto simp: less_eq_prod_def)
qed

lemma sort_by_likelihood_example:
  "sort_by_likelihood [''admin''] [''abc'', ''Admin2024'', ''zzz'', ''admin1'']
   = [''Admin2024'', ''admin1'', ''abc'', ''zzz'']"
  by code_simp

text \<open>
  C1. The word list is a set, given as the list of its members in iteration order (so
  without repetition), the base words as a list in iteration order. The result holds the
  same candidates; of two positions the earlier has the higher score, or the same score
  and the smaller string; and every other iteration order of the same candidate set gives
  the same sequence.
\<close>

theorem sort_by_likelihood_order_deterministic:
  assumes "distinct wordlist"
  shows "mset (sort_by_likelihood base_words wordlist) = mset wordlist
    \<and> (\<forall>i j. i < j \<and> j < length wordlist \<longrightarrow>
          score base_words (sort_by_likelihood base_words wordlist ! j)
            < score base_words (sort_by_likelihood base_words wordlist ! i)
          \<or> (score base_words (sort_by_likelihood base_words wordlist ! i)
               = score base_words (sort_by_likelihood base_words wordlist ! j)
             \<and> sort_by_likelihood base_words wordlist ! i
                 < sort_by_likelihood base_words wordlist ! j))
    \<and> (\<forall>wordlist'. distinct wordlist' \<and> set wordlist' = set wordlist \<longrightarrow>
          sort_by_likelihood base_words wordlist' = sort_by_likelihood base_words wordlist)"
proof (intro conjI allI impI)
  let ?k = "\<lambda>p. (- score base_words p, p)"
  let ?r = "sort_by_likelihood base_words wordlist"
  show m: "mset ?r = mset wordlist" by (simp add: sort_by_likelihood_eq)
  have s: "sorted (map ?k ?r)" by (simp add: sort_by_likelihood_eq)
  have d: "distinct ?r" using assms by (simp add: sort_by_likelihood_eq)
  have l: "length ?r = length wordlist" by (simp add: sort_by_likelihood_eq)
  {
    fix i j assume "i < j \<and> j < length wordlist"
    then show "score base_words (?r ! j) < score base_words (?r ! i)
          \<or> (score base_words (?r ! i) = score base_words (?r ! j) \<and> ?r ! i < ?r ! j)"
      using sorted_key_order [OF s d, of i j] l by simp
  }
  {
    fix wordlist' assume h: "distinct wordlist' \<and> set wordlist' = set wordlist"
    then have "mset wordlist' = mset ?r"
      using assms m set_eq_iff_mset_eq_distinct [of wordlist' wordlist] by simp
    moreover have "inj_on ?k (set wordlist')" by (rule inj_onI) simp
    ultimately have "sort_key ?k wordlist' = ?r" using s by (rule sort_key_inj_key_eq)
    then show "sort_by_likelihood base_words wordlist' = ?r" by (simp add: sort_by_likelihood_eq)
  }
qed

theorem sort_by_likelihood_order_deterministic_witness:
  "distinct [''abc'', ''Admin2024'', ''zzz'', ''admin1'']
   \<and> sort_by_likelihood [''admin''] [''zzz'', ''admin1'', ''Admin2024'', ''abc'']
       = [''Admin2024'', ''admin1'', ''abc'', ''zzz'']"
proof -
  have d: "distinct [''abc'', ''Admin2024'', ''zzz'', ''admin1'']" by simp
  have d': "distinct [''zzz'', ''admin1'', ''Admin2024'', ''abc'']" by simp
  have e: "set [''zzz'', ''admin1'', ''Admin2024'', ''abc'']
           = set [''abc'', ''Admin2024'', ''zzz'', ''admin1'']" by auto
  have "sort_by_likelihood [''admin''] [''zzz'', ''admin1'', ''Admin2024'', ''abc'']
        = sort_by_likelihood [''admin''] [''abc'', ''Admin2024'', ''zzz'', ''admin1'']"
    using sort_by_likelihood_order_deterministic [OF d, of "[''admin'']"] d' e by blast
  then show ?thesis using d sort_by_likelihood_example by simp
qed

section \<open>Properties of the mutation engine\<close>

lemma card_slice_to: "0 \<le> n \<Longrightarrow> card (set (slice_to n xs)) \<le> nat n"
proof -
  assume "0 \<le> n"
  then have "length (slice_to n xs) \<le> nat n" by (simp add: slice_to_def)
  with card_length [of "slice_to n xs"] show ?thesis by linarith
qed

text \<open>
  With the sorted order as iteration order, the loop leaves 16 variants of \<open>asset\<close> and
  the final slice keeps 10 of them.
\<close>

lemma apply_leetspeak_example:
  "card (leet_loop sorted_list_of_set ''asset'' 5 LEET_MAP {''asset''}) = 16
   \<and> card (apply_leetspeak sorted_list_of_set ''asset'' 5) = 10"
  by code_simp

text \<open>
  C3. For every word and every iteration order of the variant set, the leetspeak
  expansion with \<open>max_variants = 5\<close> has at most 10 members; for every \<open>max_variants\<close>
  that is not negative the result has at most \<open>2 * max_variants\<close> members.
\<close>

theorem apply_leetspeak_bound:
  "card (apply_leetspeak to_list word 5) \<le> 10
   \<and> (0 \<le> max_variants \<longrightarrow>
        card (apply_leetspeak to_list word max_variants) \<le> nat (2 * max_variants))"
proof (intro conjI impI)
  show "card (apply_leetspeak to_list word 5) \<le> 10"
    using card_slice_to [of "5 * 2"] by (simp add: apply_leetspeak_def)
  assume "0 \<le> max_variants"
  then show "card (apply_leetspeak to_list word max_variants) \<le> nat (2 * max_variants)"
    using card_slice_to [of "max_variants * 2"] by (simp add: apply_leetspeak_def mult.commute)
qed

theorem apply_leetspeak_bound_witness:
  "(0::int) \<le> 3
   \<and> card (apply_leetspeak sorted_list_of_set ''asset'' 3) \<le> 6
   \<and> card (apply_leetspeak sorted_list_of_set ''asset'' 5) \<le> 10"
  using apply_leetspeak_bound [of sorted_list_of_set "''asset''" 3] by simp

lemma fold_insert2:
  "fold (\<lambda>x m. insert (g x) (insert (h x) m)) xs m = m \<union> g ` set xs \<union> h ` set xs"
  by (induction xs arbitrary: m) auto

lemma add_suffixes_eq:
  "add_suffixes word ss m = m \<union> (\<lambda>s. capitalize word @ s) ` set ss \<union> (\<lambda>s. word @ s) ` set ss"
  unfolding add_suffixes_def by (rule fold_insert2)

lemma add_years_eq:
  "add_years word y m =
     m \<union> (\<lambda>k. word @ last_n 2 (str_int (y + k))) ` set [-2, -1, 0, 1, 2]
       \<union> (\<lambda>k. word @ str_int (y + k)) ` set [-2, -1, 0, 1, 2]"
  unfolding add_years_def Let_def by (rule fold_insert2)

lemma fold_superset:
  assumes "\<And>x r. r \<subseteq> f x r"
  shows "m \<subseteq> fold f xs m"
proof (induction xs arbitrary: m)
  case Nil
  show ?case by simp
next
  case (Cons x xs)
  have "m \<subseteq> f x m" by (rule assms)
  also have "f x m \<subseteq> fold f xs (f x m)" by (rule Cons.IH)
  finally show ?case by simp
qed

lemma level2_superset: "m \<subseteq> level2 to_list leet word m"
  by (auto simp: level2_def Let_def)

lemma level3_superset: "m \<subseteq> level3 word m"
proof -
  let ?f = "\<lambda>prefix m. if \<not> startswith (lower word) prefix
                    then insert (prefix @ ''_'' @ word) (insert (prefix @ word) m) else m"
  have "m \<subseteq> fold ?f COMMON_PREFIXES m" by (rule fold_superset) auto
  then show ?thesis unfolding level3_def Let_def by blast
qed

text \<open>
  C5. For every word, with the same year and options, each level-1 mutation is a level-3
  mutation: level 3 uses all suffixes, of which level 1 uses the first ten, and the blocks
  of levels 2 and 3 only add.
\<close>

theorem mutate_level1_subset_level3:
  "mutate_word to_list leet current_year word 1 \<subseteq> mutate_word to_list leet current_year word 3"
proof (cases "word = []")
  case True
  then show ?thesis by (simp add: mutate_word_def)
next
  case False
  let ?B = "insert (title word) (insert (capitalize word) (insert (upper word)
              (insert (lower word) {word})))"
  have 1: "mutate_word to_list leet current_year word 1
        = add_years word current_year (add_suffixes word (take 10 COMMON_SUFFIXES) ?B)"
    using False by (simp add: mutate_word_def Let_def)
  have 3: "mutate_word to_list leet current_year word 3
        = level3 word (level2 to_list leet word
            (add_years word current_year (add_suffixes word COMMON_SUFFIXES ?B)))"
    using False by (simp add: mutate_word_def Let_def)
  have "set (take 10 COMMON_SUFFIXES) \<subseteq> set COMMON_SUFFIXES" by (rule set_take_subset)
  then have "add_suffixes word (take 10 COMMON_SUFFIXES) ?B \<subseteq> add_suffixes word COMMON_SUFFIXES ?B"
    unfolding add_suffixes_eq by blast
  then have "add_years word current_year (add_suffixes word (take 10 COMMON_SUFFIXES) ?B)
     \<subseteq> add_years word current_year (add_suffixes word COMMON_SUFFIXES ?B)"
    unfolding add_years_eq by blast
  also have "\<dots> \<subseteq> level2 to_list leet word
            (add_years word current_year (add_suffixes word COMMON_SUFFIXES ?B))"
    by (rule level2_superset)
  also have "\<dots> \<subseteq> level3 word (level2 to_list leet word
            (add_years word current_year (add_suffixes word COMMON_SUFFIXES ?B)))"
    by (rule level3_superset)
  finally show ?thesis unfolding 1 3 .
qed

theorem mutate_level1_subset_level3_witness:
  "mutate_word sorted_list_of_set True 2025 ''admin'' 1
     \<subseteq> mutate_word sorted_list_of_set True 2025 ''admin'' 3"
  by (rule mutate_level1_subset_level3)

lemma case_forms_example:
  "lower ''aDmin'' = ''admin'' \<and> upper ''aDmin'' = ''ADMIN'' \<and> capitalize ''aDmin'' = ''Admin''"
  by code_simp

text \<open>
  C6. For every word, the empty one too, the level-1 mutations contain the word, its
  lower-cased, its upper-cased and its capitalized form.
\<close>

theorem mutate_level1_contains_case_forms:
  "{word, lower word, upper word, capitalize word}
     \<subseteq> mutate_word to_list leet current_year word 1"
proof (cases "word = []")
  case True
  then show ?thesis by (simp add: mutate_word_def lower_def upper_def)
next
  case False
  then show ?thesis
    by (simp add: mutate_word_def Let_def add_years_eq add_suffixes_eq)
qed

theorem mutate_level1_contains_case_forms_witness:
  "{''aDmin'', ''admin'', ''ADMIN'', ''Admin''}
     \<subseteq> mutate_word sorted_list_of_set False 2025 ''aDmin'' 1"
  using mutate_level1_contains_case_forms [of "''aDmin''" sorted_list_of_set False 2025]
    case_forms_example by simp

section \<open>Properties of the pattern expander\<close>

lemma fold_invariant:
  assumes "\<And>x r. x \<in> set xs \<Longrightarrow> I r \<Longrightarrow> I (f x r)" and "I r0"
  shows "I (fold f xs r0)"
  using assms by (induction xs arbitrary: r0) simp_all

text \<open>
  Every call of \<open>_generate\<close> keeps the length of \<open>current\<close> plus what is left of the
  pattern, so a set of strings of that length stays one.
\<close>

lemma generate_lengths:
  "\<forall>s \<in> results. length s = n \<Longrightarrow> length current + length pattern = n
     \<Longrightarrow> \<forall>s \<in> generate limit pattern current results. length s = n"
proof (induction pattern arbitrary: current results)
  case Nil
  then show ?case by simp
next
  case (Cons char remaining)
  show ?case
  proof (cases "map_of mappings char")
    case None
    have "\<forall>s \<in> generate limit remaining (current @ [char]) results. length s = n"
      using Cons.prems by (intro Cons.IH) simp_all
    with None Cons.prems(1) show ?thesis by simp
  next
    case (Some cls)
    have "\<forall>s \<in> fold (\<lambda>replacement. generate limit remaining (current @ [replacement]))
                   (chars_to_use cls) results. length s = n"
    proof (rule fold_invariant [where I = "\<lambda>r::string set. \<forall>s \<in> r. length s = n"])
      fix x and r :: "string set" assume "\<forall>s \<in> r. length s = n"
      then show "\<forall>s \<in> generate limit remaining (current @ [x]) r. length s = n"
        using Cons.prems(2) by (intro Cons.IH) simp_all
    next
      show "\<forall>s \<in> results. length s = n" by (rule Cons.prems(1))
    qed
    with Some Cons.prems(1) show ?thesis by simp
  qed
qed

text \<open>
  C9. Every string the pattern expander produces is as long as the pattern: a wildcard
  and a literal each give one character.
\<close>

theorem generate_from_pattern_length:
  "s \<in> generate_from_pattern pattern limit \<Longrightarrow> length s = length pattern"
  using generate_lengths [of "{}" "length pattern" "[]" pattern limit]
  by (simp add: generate_from_pattern_def)

theorem generate_from_pattern_length_witness:
  "''x1'' \<in> generate_from_pattern ''x%'' 1000 \<and> length ''x1'' = length ''x%''"
proof -
  have m: "''x1'' \<in> generate_from_pattern ''x%'' 1000" by code_simp
  show ?thesis using m generate_from_pattern_length [OF m] by simp
qed

text \<open>
  While the limit is at least the size of the set \<open>U\<close> that holds all the strings, the
  test against the limit stops nothing that is new: when it fires, the results are \<open>U\<close>.
\<close>

lemma card_seteq_le:
  assumes "finite U" "res \<subseteq> U" "int (card U) \<le> limit" "limit \<le> int (card res)"
  shows "res = U"
  using assms by (intro card_seteq) simp_all

lemma generate_fold_eq:
  assumes step: "\<And>cur res. res \<subseteq> U \<Longrightarrow> (\<lambda>t. cur @ t) ` set (expansions rem) \<subseteq> U
                   \<Longrightarrow> generate limit rem cur res = res \<union> (\<lambda>t. cur @ t) ` set (expansions rem)"
    and "res \<subseteq> U" and "\<forall>r \<in> set rs. (\<lambda>t. (cur @ [r]) @ t) ` set (expansions rem) \<subseteq> U"
  shows "fold (\<lambda>r. generate limit rem (cur @ [r])) rs res
         = res \<union> (\<Union>r \<in> set rs. (\<lambda>t. (cur @ [r]) @ t) ` set (expansions rem))"
  using assms(2,3)
proof (induction rs arbitrary: res)
  case Nil
  then show ?case by simp
next
  case (Cons r rs)
  have 1: "generate limit rem (cur @ [r]) res
           = res \<union> (\<lambda>t. (cur @ [r]) @ t) ` set (expansions rem)"
    using Cons.prems by (intro step) simp_all
  have 2: "res \<union> (\<lambda>t. (cur @ [r]) @ t) ` set (expansions rem) \<subseteq> U"
    using Cons.prems by simp
  show ?case
    using Cons.IH [OF 2] Cons.prems(2) by (simp add: 1 Un_assoc)
qed

lemma generate_eq:
  assumes "finite U" "int (card U) \<le> limit"
  shows "res \<subseteq> U \<Longrightarrow> (\<lambda>t. cur @ t) ` set (expansions pattern) \<subseteq> U
     \<Longrightarrow> generate limit pattern cur res = res \<union> (\<lambda>t. cur @ t) ` set (expansions pattern)"
proof (induction pattern arbitrary: cur res)
  case Nil
  show ?case
  proof (cases "limit \<le> int (card res)")
    case True
    then have "res = U" using assms Nil.prems(1) by (intro card_seteq_le) simp_all
    with True Nil.prems(2) show ?thesis by auto
  next
    case False
    then show ?thesis by simp
  qed
next
  case (Cons char remaining)
  show ?case
  proof (cases "limit \<le> int (card res)")
    case True
    then have "res = U" using assms Cons.prems(1) by (intro card_seteq_le) simp_all
    with True Cons.prems(2) show ?thesis by auto
  next
    case False
    show ?thesis
    proof (cases "map_of mappings char")
      case None
      have "generate limit remaining (cur @ [char]) res
            = res \<union> (\<lambda>t. (cur @ [char]) @ t) ` set (expansions remaining)"
        using Cons.prems None by (intro Cons.IH) (auto simp: image_image)
      with None False show ?thesis by (simp add: image_image)
    next
      case (Some cls)
      have sub: "\<forall>r \<in> set (chars_to_use cls).
                   (\<lambda>t. (cur @ [r]) @ t) ` set (expansions remaining) \<subseteq> U"
        using Cons.prems(2) Some by (auto simp: image_image)
      have "fold (\<lambda>r. generate limit remaining (cur @ [r])) (chars_to_use cls) res
            = res \<union> (\<Union>r \<in> set (chars_to_use cls).
                       (\<lambda>t. (cur @ [r]) @ t) ` set (expansions remaining))"
        using Cons.prems(1) sub by (intro generate_fold_eq Cons.IH) simp_all
      with Some False show ?thesis by (auto simp: image_image)
    qed
  qed
qed

lemma generate_from_pattern_eq:
  assumes "int (length (expansions pattern)) \<le> limit"
  shows "generate_from_pattern pattern limit = set (expansions pattern)"
proof -
  have "int (card (set (expansions pattern))) \<le> limit"
    using assms card_length [of "expansions pattern"] by linarith
  then have "generate limit pattern [] {} = {} \<union> (\<lambda>t. [] @ t) ` set (expansions pattern)"
    by (intro generate_eq [where U = "set (expansions pattern)"]) simp_all
  then show ?thesis by (simp add: generate_from_pattern_def)
qed

lemma admin_length: "length (expansions ''admin%%'') = 125"
  by code_simp

lemma admin_distinct: "distinct (expansions ''admin%%'')"
  by code_simp

lemma admin_members:
  "''a0min00'' \<in> set (expansions ''admin%%'') \<and> ''admin00'' \<notin> set (expansions ''admin%%'')
   \<and> Set.filter (\<lambda>s. startswith s ''admin'') (set (expansions ''admin%%'')) = {}"
  by code_simp

text \<open>
  C4. The source at \<open>generate_from_pattern("admin%%", 1000)\<close>: the letter \<open>d\<close> of
  \<open>admin\<close> is itself a key of \<open>mappings\<close> and is expanded to a digit. The result has 125
  strings, not at most 25; \<open>a0min00\<close> is one of them, \<open>admin00\<close> is not, and none starts
  with \<open>admin\<close>.
\<close>

theorem generate_from_pattern_admin:
  "card (generate_from_pattern ''admin%%'' 1000) = 125
   \<and> ''a0min00'' \<in> generate_from_pattern ''admin%%'' 1000
   \<and> ''admin00'' \<notin> generate_from_pattern ''admin%%'' 1000
   \<and> Set.filter (\<lambda>s. startswith s ''admin'') (generate_from_pattern ''admin%%'' 1000) = {}"
proof -
  have len: "int (length (expansions ''admin%%'')) \<le> 1000"
    unfolding admin_length by simp
  have eq: "generate_from_pattern ''admin%%'' 1000 = set (expansions ''admin%%'')"
    using len by (rule generate_from_pattern_eq)
  have c: "card (set (expansions ''admin%%'')) = 125"
    using distinct_card [OF admin_distinct] unfolding admin_length .
  show ?thesis unfolding eq using c admin_members by blast
qed

section \<open>Properties of the combination generator\<close>

text \<open>
  \<open>capitalize\<close> keeps the length of a word that does not begin with the sharp s, so of
  every ASCII word; it makes a word that begins with it one character longer.
\<close>

lemma length_capitalize: "w = [] \<or> hd w \<noteq> sharp_s \<Longrightarrow> length (capitalize w) = length w"
  by (cases w) (simp_all add: title_str_def)

lemma isascii_not_sharp_s: "isascii c \<Longrightarrow> c \<noteq> sharp_s"
  by (auto simp: isascii_def sharp_s_def)

lemma length_capitalize_ascii: "\<forall>c \<in> set w. isascii c \<Longrightarrow> length (capitalize w) = length w"
  by (cases w) (auto simp: title_str_def dest: isascii_not_sharp_s)

lemma length_capitalize_sharp_s: "length (capitalize (sharp_s # w)) = length (sharp_s # w) + 1"
  by (simp add: title_str_def)

lemma combinations2_subset:
  "(a, b) \<in> set (combinations2 xs) \<Longrightarrow> a \<in> set xs \<and> b \<in> set xs"
  by (induction xs) auto

lemma combinations3_subset:
  "(a, b, c) \<in> set (combinations3 xs) \<Longrightarrow> a \<in> set xs \<and> b \<in> set xs \<and> c \<in> set xs"
  by (induction xs) (auto dest: combinations2_subset)

lemma add_pair_bound:
  assumes "length (capitalize (fst p)) = length (fst p)"
    and "length (capitalize (snd p)) = length (snd p)"
    and "\<forall>s \<in> combos. int (length s) \<le> ml + 1"
  shows "\<forall>s \<in> add_pair ml p combos. int (length s) \<le> ml + 1"
  using assms by (cases p) (auto simp: add_pair_def)

lemma add_triple_bound:
  assumes "length (capitalize (fst t)) = length (fst t)"
    and "length (capitalize (fst (snd t))) = length (fst (snd t))"
    and "length (capitalize (snd (snd t))) = length (snd (snd t))"
    and "\<forall>s \<in> combos. int (length s) \<le> ml + 1"
  shows "\<forall>s \<in> add_triple ml t combos. int (length s) \<le> ml + 1"
  using assms by (cases t) (auto simp: add_triple_def Let_def)

lemma generate_combinations_bound:
  assumes keeps: "\<forall>w \<in> set (take 30 words). length (capitalize w) = length w"
  shows "\<forall>s \<in> generate_combinations words ml. int (length s) \<le> ml + 1"
proof -
  let ?I = "\<lambda>r::string set. \<forall>s \<in> r. int (length s) \<le> ml + 1"
  have p: "?I (fold (add_pair ml) (combinations2 (take 30 words)) {})"
  proof (rule fold_invariant [where I = ?I])
    fix x and r :: "string set"
    assume x: "x \<in> set (combinations2 (take 30 words))" and r: "?I r"
    obtain a b where ab: "x = (a, b)" by (cases x)
    from x ab have "a \<in> set (take 30 words)" "b \<in> set (take 30 words)"
      by (auto dest: combinations2_subset)
    with keeps ab have "length (capitalize (fst x)) = length (fst x)"
      "length (capitalize (snd x)) = length (snd x)" by simp_all
    then show "?I (add_pair ml x r)" using r by (rule add_pair_bound)
  qed simp
  have "?I (fold (add_triple ml) (combinations3 (take 10 (take 30 words)))
              (fold (add_pair ml) (combinations2 (take 30 words)) {}))"
  proof (rule fold_invariant [where I = ?I])
    fix x and r :: "string set"
    assume x: "x \<in> set (combinations3 (take 10 (take 30 words)))" and r: "?I r"
    obtain a b c where abc: "x = (a, b, c)" by (cases x)
    from x abc have "a \<in> set (take 10 (take 30 words))" "b \<in> set (take 10 (take 30 words))"
      "c \<in> set (take 10 (take 30 words))"
      by (auto dest: combinations3_subset)
    then have "a \<in> set (take 30 words)" "b \<in> set (take 30 words)" "c \<in> set (take 30 words)"
      using set_take_subset_set_take [of 10 30 words] by auto
    with keeps abc have "length (capitalize (fst x)) = length (fst x)"
      "length (capitalize (fst (snd x))) = length (fst (snd x))"
      "length (capitalize (snd (snd x))) = length (snd (snd x))" by simp_all
    then show "?I (add_triple ml x r)" using r by (rule add_triple_bound)
  qed (rule p)
  with p show ?thesis by (simp add: generate_combinations_def Let_def)
qed

text \<open>
  C10, with the condition the bound needs. The pair test compares the sum of the two word
  lengths with \<open>max_length\<close> before a separator is put between them and before the words
  are capitalized. When \<open>capitalize\<close> keeps the length of each of the first 30 words, as
  it does for ASCII words, every string emitted has length at most \<open>max_length + 1\<close>; and
  for any two words whose lengths add up to \<open>max_length\<close> the three separator-joined
  forms are emitted and have length \<open>max_length + 1\<close>.
\<close>

theorem generate_combinations_length:
  "((\<forall>w \<in> set (take 30 words). length (capitalize w) = length w) \<longrightarrow>
      (\<forall>s \<in> generate_combinations words ml. int (length s) \<le> ml + 1))
   \<and> ((\<forall>w \<in> set (take 30 words). \<forall>c \<in> set w. isascii c) \<longrightarrow>
      (\<forall>s \<in> generate_combinations words ml. int (length s) \<le> ml + 1))
   \<and> (int (length w1) + int (length w2) = ml \<longrightarrow>
        {w1 @ ''_'' @ w2, w1 @ ''.'' @ w2, w1 @ ''-'' @ w2} \<subseteq> generate_combinations [w1, w2] ml
        \<and> int (length (w1 @ ''_'' @ w2)) = ml + 1
        \<and> int (length (w1 @ ''.'' @ w2)) = ml + 1
        \<and> int (length (w1 @ ''-'' @ w2)) = ml + 1)"
proof (intro conjI impI)
  assume "\<forall>w \<in> set (take 30 words). length (capitalize w) = length w"
  then show "\<forall>s \<in> generate_combinations words ml. int (length s) \<le> ml + 1"
    by (rule generate_combinations_bound)
next
  assume "\<forall>w \<in> set (take 30 words). \<forall>c \<in> set w. isascii c"
  then have "\<forall>w \<in> set (take 30 words). length (capitalize w) = length w"
    by (simp add: length_capitalize_ascii)
  then show "\<forall>s \<in> generate_combinations words ml. int (length s) \<le> ml + 1"
    by (rule generate_combinations_bound)
next
  assume "int (length w1) + int (length w2) = ml"
  then show "{w1 @ ''_'' @ w2, w1 @ ''.'' @ w2, w1 @ ''-'' @ w2}
               \<subseteq> generate_combinations [w1, w2] ml"
    by (simp add: generate_combinations_def Let_def add_pair_def)
next
  assume "int (length w1) + int (length w2) = ml"
  then show "int (length (w1 @ ''_'' @ w2)) = ml + 1" by simp
next
  assume "int (length w1) + int (length w2) = ml"
  then show "int (length (w1 @ ''.'' @ w2)) = ml + 1" by simp
next
  assume "int (length w1) + int (length w2) = ml"
  then show "int (length (w1 @ ''-'' @ w2)) = ml + 1" by simp
qed

lemma ascii_example:
  "list_all (list_all isascii) [''ab'', ''cd''] \<and> ''AbCd'' \<in> generate_combinations [''ab'', ''cd''] 4"
  by code_simp

theorem generate_combinations_length_witness:
  "int (length ''ab'') + int (length ''cd'') = 4
   \<and> length (capitalize ''ab'') = length ''ab'' \<and> length (capitalize ''cd'') = length ''cd''
   \<and> list_all (list_all isascii) [''ab'', ''cd'']
   \<and> ''ab_cd'' \<in> generate_combinations [''ab'', ''cd''] 4
   \<and> int (length ''ab_cd'') = 4 + 1
   \<and> ''AbCd'' \<in> generate_combinations [''ab'', ''cd''] 4
   \<and> int (length ''AbCd'') \<le> 4 + 1"
proof -
  have k: "\<forall>w \<in> set (take 30 [''ab'', ''cd'']). length (capitalize w) = length w"
    by (simp add: title_str_def sharp_s_def)
  have a: "\<forall>w \<in> set (take 30 [''ab'', ''cd'']). \<forall>c \<in> set w. isascii c"
    using ascii_example by (simp add: list_all_iff)
  have s: "int (length ''ab'') + int (length ''cd'') = 4" by simp
  from generate_combinations_length [of "[''ab'', ''cd'']" 4 "''ab''" "''cd''"] k a s
  have "''ab_cd'' \<in> generate_combinations [''ab'', ''cd''] 4" by simp
  then show ?thesis using k ascii_example by simp
qed

text \<open>
  C10 as stated fails. The two words of \<open>-w\<close> that begin with the sharp s and end in \<open>a\<close>
  and \<open>b\<close> have lengths that add up to 4, so with \<open>max_length = 4\<close> the pair is taken; its
  both-capitalized form is \<open>SsaSsb\<close>, of length 6, more than \<open>max_length + 1\<close>.
\<close>

theorem capitalized_pair_exceeds_bound:
  "int (length [sharp_s, CHR ''a'']) + int (length [sharp_s, CHR ''b'']) \<le> 4
   \<and> ''SsaSsb'' \<in> generate_combinations [[sharp_s, CHR ''a''], [sharp_s, CHR ''b'']] 4
   \<and> 4 + 1 < int (length ''SsaSsb'')"
  by (simp add: generate_combinations_def add_pair_def title_str_def lower_char_def
      ascii_uppercase_def ascii_lowercase_def)

end
